theory Spec2Isabelle
  imports Complex_Main "HOL-Library.Sublist" "HOL-Library.Log_Nat"
begin

section \<open>Strings\<close>

text \<open>
  A Python \<open>str\<close> is a \<^typ>\<open>string\<close>: one \<^typ>\<open>char\<close> per code point, for the code points
  U+0000 to U+00FF (Latin-1, which holds the Spanish text of the stop-word list). The
  character classes below are CPython's \<open>str.isspace\<close>, \<open>str.isalnum\<close> and \<open>str.lower\<close> on
  that range; \<open>len\<close> is \<^const>\<open>length\<close>. Code points above U+00FF are outside the model.
\<close>

definition isspace :: "char \<Rightarrow> bool" where
  "isspace c =
     (let n = (of_char c :: nat)
      in (9 \<le> n \<and> n \<le> 13) \<or> (28 \<le> n \<and> n \<le> 32) \<or> n = 133 \<or> n = 160)"

definition isalnum :: "char \<Rightarrow> bool" where
  "isalnum c =
     (let n = (of_char c :: nat)
      in (48 \<le> n \<and> n \<le> 57) \<or> (65 \<le> n \<and> n \<le> 90) \<or> (97 \<le> n \<and> n \<le> 122)
         \<or> n = 170 \<or> n = 178 \<or> n = 179 \<or> n = 181 \<or> n = 185 \<or> n = 186
         \<or> (188 \<le> n \<and> n \<le> 190) \<or> (192 \<le> n \<and> n \<le> 214)
         \<or> (216 \<le> n \<and> n \<le> 246) \<or> (248 \<le> n \<and> n \<le> 255))"

definition char_lower :: "char \<Rightarrow> char" where
  "char_lower c =
     (let n = (of_char c :: nat)
      in if (65 \<le> n \<and> n \<le> 90) \<or> (192 \<le> n \<and> n \<le> 214) \<or> (216 \<le> n \<and> n \<le> 222)
         then char_of (n + 32) else c)"

text \<open>\<open>text.lower()\<close>\<close>

definition lower :: "string \<Rightarrow> string" where
  "lower text = map char_lower text"

text \<open>
  \<open>text.split()\<close>: the maximal runs of non-whitespace characters, in order. \<open>w\<close> is the
  run being read.
\<close>

fun split_from :: "string \<Rightarrow> string \<Rightarrow> string list" where
  "split_from w [] = (if w = [] then [] else [w])"
| "split_from w (c # cs) =
     (if isspace c then (if w = [] then split_from [] cs else w # split_from [] cs)
      else split_from (w @ [c]) cs)"

definition split :: "string \<Rightarrow> string list" where
  "split text = split_from [] text"

text \<open>\<open>sep.join(parts)\<close>\<close>

fun join :: "string \<Rightarrow> string list \<Rightarrow> string" where
  "join sep [] = []"
| "join sep [p] = p"
| "join sep (p # q # ps) = p @ sep @ join sep (q # ps)"

section \<open>Term extraction\<close>

text \<open>
  The character class \<open>[^\w\s]\<close> of the regular expression: \<open>\w\<close> is an alphanumeric
  character or the underscore, \<open>\s\<close> a whitespace character.
\<close>

definition word_char :: "char \<Rightarrow> bool" where
  "word_char c = (isalnum c \<or> c = CHR ''_'')"

text \<open>\<open>re.sub(r'[^\w\s]', ' ', text)\<close>\<close>

definition re_sub_punct :: "string \<Rightarrow> string" where
  "re_sub_punct text = map (\<lambda>c. if \<not> word_char c \<and> \<not> isspace c then CHR '' '' else c) text"

definition stop_words :: "string list" where
  "stop_words =
     [''el'', ''la'', ''de'', ''que'', ''y'', ''en'', ''un'', ''es'', ''se'', ''no'', ''te'',
      ''lo'', ''le'', ''da'', ''su'', ''por'', ''son'', ''con'', ''para'', ''una'', ''del'',
      ''las'', ''los'', ''como'', ''pero'', ''sus'', ''fue'', ''ser'', ''est'' @ [CHR 0xE1],
      ''muy'', ''m'' @ [CHR 0xE1] @ ''s'', ''todo'', ''bien'', ''puede'', ''esto'', ''sin'',
      ''sobre'', ''tambi'' @ [CHR 0xE9] @ ''n'', ''me'', ''hasta'', ''hay'', ''donde'',
      ''quien'', ''desde'', ''todos'', ''durante'', ''ella'', ''entre'']"

text \<open>\<open>MemorySystem._extract_terms\<close>\<close>

definition extract_terms :: "string \<Rightarrow> string list" where
  "extract_terms text =
     (let text = re_sub_punct text;
          terms = split text
      in filter (\<lambda>term. length term > 2 \<and> term \<notin> set stop_words) terms)"

text \<open>
  The reference pipeline, from the words of the specification: lowercase, replace every
  character that is neither alphanumeric nor whitespace by a space, split on whitespace,
  drop the terms of length at most 2, drop the stop words.
\<close>

definition spec_extract_terms :: "string \<Rightarrow> string list" where
  "spec_extract_terms text =
     filter (\<lambda>term. term \<notin> set stop_words)
       (filter (\<lambda>term. \<not> length term \<le> 2)
         (split (map (\<lambda>c. if isalnum c \<or> isspace c then c else CHR '' '')
                     (lower text))))"

section \<open>Configuration\<close>

text \<open>The constants of \<open>config.py\<close> that the memory system imports.\<close>

definition SHORT_TERM_MEMORY_LIMIT :: nat where
  "SHORT_TERM_MEMORY_LIMIT = 10"

definition LONG_TERM_SUMMARY_THRESHOLD :: nat where
  "LONG_TERM_SUMMARY_THRESHOLD = 50"

definition MAX_CONTEXT_TOKENS :: int where
  "MAX_CONTEXT_TOKENS = 6000"

definition RELEVANCE_SEARCH_LIMIT :: int where
  "RELEVANCE_SEARCH_LIMIT = 5"

section \<open>Data model\<close>

text \<open>
  An interaction is a dictionary with the keys written by \<open>add_interaction\<close>. A record read
  back from the history file may lack \<open>tokens_used\<close> (the code reads it with \<open>.get\<close>):
  \<open>None\<close> is the absent key. The score is a Python float: the rational value of an IEEE
  754 double. The metadata is a dictionary from strings to strings, in insertion order.
\<close>

record interaction =
  timestamp :: string
  user_message :: string
  assistant_response :: string
  metadata :: "(string \<times> string) list"
  tokens_used :: "int option"
  relevance_score :: rat

record summary =
  period :: string
  conversation_count :: nat
  date_range :: "string \<times> string"
  main_topics :: "string list"
  total_tokens :: int
  summary_text :: string

text \<open>
  A JSON file on disk: absent, present but failing to open or to parse (any exception of
  \<open>open\<close> or \<open>json.load\<close>), or holding a value. A write that is reached succeeds.
\<close>

datatype 'a json_file = Missing | Unreadable | Content 'a

text \<open>
  The state the methods of \<open>MemorySystem\<close> work on: the two attributes of the object, and
  the files at \<open>MEMORY_FILE_PATH\<close> and \<open>SUMMARY_FILE_PATH\<close>.
\<close>

record memory_system =
  short_term_memory :: "interaction list"
  conversation_summaries :: "summary list"
  memory_file :: "interaction list json_file"
  summary_file :: "summary list json_file"

text \<open>The one exception that is not caught where it is raised.\<close>

datatype error = IndexError

text \<open>\<open>xs[:n]\<close> for an integer \<open>n\<close>: a negative \<open>n\<close> counts from the end.\<close>

definition slice_to :: "int \<Rightarrow> 'a list \<Rightarrow> 'a list" where
  "slice_to n xs = (if 0 \<le> n then take (nat n) xs else take (nat (int (length xs) + n)) xs)"

text \<open>
  \<open>collections.Counter\<close>: the counts in order of first occurrence, and \<open>most_common(n)\<close>,
  which sorts by descending count and keeps that order among equal counts.
\<close>

fun counter_add :: "'a \<Rightarrow> ('a \<times> nat) list \<Rightarrow> ('a \<times> nat) list" where
  "counter_add x [] = [(x, 1)]"
| "counter_add x ((k, n) # kvs) =
     (if k = x then (k, n + 1) # kvs else (k, n) # counter_add x kvs)"

definition Counter :: "'a list \<Rightarrow> ('a \<times> nat) list" where
  "Counter xs = foldl (\<lambda>c x. counter_add x c) [] xs"

definition most_common :: "nat \<Rightarrow> ('a \<times> nat) list \<Rightarrow> ('a \<times> nat) list" where
  "most_common n c = take n (sort_key (\<lambda>kv. - int (snd kv)) c)"

section \<open>Short-term window and persistent store\<close>

text \<open>\<open>MemorySystem._estimate_tokens\<close>\<close>

definition estimate_tokens :: "string \<Rightarrow> int" where
  "estimate_tokens text = int (length text) div 4"

text \<open>\<open>MemorySystem._save_to_long_term\<close>: an exception while loading leaves the file as it is.\<close>

definition save_to_long_term :: "interaction \<Rightarrow> memory_system \<Rightarrow> memory_system" where
  "save_to_long_term interaction st =
     (case memory_file st of
        Missing \<Rightarrow> st\<lparr>memory_file := Content ([] @ [interaction])\<rparr>
      | Unreadable \<Rightarrow> st
      | Content history \<Rightarrow> st\<lparr>memory_file := Content (history @ [interaction])\<rparr>)"

section \<open>Floating point\<close>

text \<open>
  A Python float is an IEEE 754 double (binary64), here the rational it stands for. Every
  operation gives the exact result rounded to the nearest double, ties to the even
  significand: 53 significant bits, and a spacing of \<open>2 ^ (-1074)\<close> below \<open>2 ^ (-1022)\<close>.
  A score is a sum of quotients that are at most 1, each sum rounded: it is not negative,
  and once it has reached \<open>2 ^ 54\<close> adding a quotient leaves it as it is. So there is no
  sign and no overflow to model.
\<close>

definition pow2 :: "int \<Rightarrow> rat" where
  "pow2 e = (if 0 \<le> e then 2 ^ nat e else 1 / 2 ^ nat (- e))"

text \<open>For \<open>x > 0\<close>, the \<open>e\<close> with \<open>2 ^ e \<le> x < 2 ^ (e + 1)\<close>.\<close>

definition floor_log2 :: "rat \<Rightarrow> int" where
  "floor_log2 x =
     (let (p, q) = quotient_of x;
          d = bitlen p - bitlen q
      in if pow2 d \<le> x then d else d - 1)"

definition round_half_even :: "rat \<Rightarrow> int" where
  "round_half_even q =
     (let n = \<lfloor>q\<rfloor>;
          r = q - of_int n
      in if r < 1 / 2 then n
         else if r > 1 / 2 then n + 1
         else if even n then n else n + 1)"

text \<open>The double nearest to a rational that is not negative.\<close>

definition double :: "rat \<Rightarrow> rat" where
  "double x =
     (if x = 0 then 0
      else
        let e = max (floor_log2 x) (- 1022);
            ulp = pow2 (e - 52)
        in of_int (round_half_even (x / ulp)) * ulp)"

text \<open>\<open>a / b\<close> for two integers that are not negative, and \<open>x + y\<close> for two floats.\<close>

definition float_div :: "nat \<Rightarrow> nat \<Rightarrow> rat" where
  "float_div a b = double (of_nat a / of_nat b)"

definition float_add :: "rat \<Rightarrow> rat \<Rightarrow> rat" where
  "float_add x y = double (x + y)"

section \<open>Relevance search\<close>

text \<open>\<open>MemorySystem._calculate_relevance_score\<close>\<close>

definition calculate_relevance_score :: "string list \<Rightarrow> string \<Rightarrow> rat" where
  "calculate_relevance_score query_terms text =
     (let text_terms = extract_terms text
      in if text_terms = [] \<or> query_terms = [] then 0
         else
           let text_freq = Counter text_terms
           in foldl (\<lambda>score term.
                       case map_of text_freq term of
                         Some n \<Rightarrow>
                           let tf = float_div n (length text_terms)
                           in float_add score tf
                       | None \<Rightarrow> score)
                0 query_terms)"

text \<open>The score of one conversation in the loop of \<open>search_relevant_conversations\<close>.\<close>

definition conversation_score :: "string list \<Rightarrow> interaction \<Rightarrow> rat" where
  "conversation_score query_terms conv =
     (let text = lower (user_message conv @ '' '' @ assistant_response conv)
      in calculate_relevance_score query_terms text)"

text \<open>The loop over \<open>all_history\<close>: \<open>scored_conversations\<close> is the accumulator.\<close>

fun score_conversations ::
  "string list \<Rightarrow> interaction list \<Rightarrow> interaction list \<Rightarrow> interaction list" where
  "score_conversations query_terms [] scored_conversations = scored_conversations"
| "score_conversations query_terms (conv # rest) scored_conversations =
     (let score = conversation_score query_terms conv
      in if score > 0
         then
           let conv_copy = conv;
               conv_copy = conv_copy\<lparr>relevance_score := score\<rparr>
           in score_conversations query_terms rest (scored_conversations @ [conv_copy])
         else score_conversations query_terms rest scored_conversations)"


text \<open>
  \<open>MemorySystem.search_relevant_conversations\<close>, as a function of the history file. The
  sort is \<open>list.sort(key=..., reverse=True)\<close>: descending, equal keys in their former order.
\<close>

definition search_relevant_conversations ::
  "interaction list json_file \<Rightarrow> string \<Rightarrow> int option \<Rightarrow> interaction list" where
  "search_relevant_conversations stored query limit =
     (let limit = (case limit of None \<Rightarrow> RELEVANCE_SEARCH_LIMIT | Some l \<Rightarrow> l)
      in case stored of
           Unreadable \<Rightarrow> []
         | Missing \<Rightarrow> []
         | Content all_history \<Rightarrow>
             if all_history = [] then []
             else
               let query_terms = extract_terms (lower query);
                   scored_conversations = score_conversations query_terms all_history [];
                   scored_conversations =
                     sort_key (\<lambda>x. - relevance_score x) scored_conversations
               in slice_to limit scored_conversations)"

section \<open>Relevance search on dictionary objects\<close>

text \<open>
  The same search with the dictionaries as objects, for what it does to the records it
  does not return. An object lives at an address of the store (its index);
  \<open>self.short_term_memory\<close> is a list of addresses; the history file holds values.
  \<open>json.load\<close> builds a new object for every record of the file, \<open>conv.copy()\<close> builds a
  new object with the fields of \<open>conv\<close>, and an item assignment changes the object at
  the assigned address.
\<close>

record object_state =
  objects :: "interaction list"
  window_refs :: "nat list"
  history_file :: "interaction list json_file"

definition new_object :: "interaction \<Rightarrow> interaction list \<Rightarrow> nat \<times> interaction list" where
  "new_object v objs = (length objs, objs @ [v])"

fun json_load :: "interaction list \<Rightarrow> interaction list \<Rightarrow> nat list \<times> interaction list" where
  "json_load [] objs = ([], objs)"
| "json_load (v # vs) objs =
     (let (r, objs) = new_object v objs;
          (rs, objs) = json_load vs objs
      in (r # rs, objs))"

fun score_refs ::
  "string list \<Rightarrow> nat list \<Rightarrow> nat list \<Rightarrow> interaction list \<Rightarrow> nat list \<times> interaction list"
  where
  "score_refs query_terms [] scored_conversations objs = (scored_conversations, objs)"
| "score_refs query_terms (conv # rest) scored_conversations objs =
     (let score = conversation_score query_terms (objs ! conv)
      in if score > 0
         then
           let (conv_copy, objs) = new_object (objs ! conv) objs;
               objs = objs[conv_copy := (objs ! conv_copy)\<lparr>relevance_score := score\<rparr>]
           in score_refs query_terms rest (scored_conversations @ [conv_copy]) objs
         else score_refs query_terms rest scored_conversations objs)"

definition search_relevant_conversations_refs ::
  "string \<Rightarrow> int option \<Rightarrow> object_state \<Rightarrow> nat list \<times> object_state" where
  "search_relevant_conversations_refs query limit st =
     (let limit = (case limit of None \<Rightarrow> RELEVANCE_SEARCH_LIMIT | Some l \<Rightarrow> l)
      in case history_file st of
           Unreadable \<Rightarrow> ([], st)
         | Missing \<Rightarrow> ([], st)
         | Content values \<Rightarrow>
             let (all_history, objs) = json_load values (objects st);
                 st = st\<lparr>objects := objs\<rparr>
             in if all_history = [] then ([], st)
                else
                  let query_terms = extract_terms (lower query);
                      (scored_conversations, objs) =
                        score_refs query_terms all_history [] (objects st);
                      st = st\<lparr>objects := objs\<rparr>;
                      scored_conversations =
                        sort_key (\<lambda>x. - relevance_score (objects st ! x)) scored_conversations
                  in (slice_to limit scored_conversations, st))"

section \<open>Dates\<close>

text \<open>
  \<open>datetime.fromisoformat\<close> and \<open>isocalendar\<close> belong to the Python library. The parser
  accepts the grammar \<open>YYYY-MM-DD[*HH[:MM[:SS[.fff[fff]]]][+HH:MM[:SS[.ffffff]]]]\<close> of the
  library documentation, which holds everything \<open>datetime.now().isoformat()\<close> writes; any
  other string is unparsable. The calendar arithmetic is the library's proleptic Gregorian
  ordinal.
\<close>

record date =
  year :: nat
  month :: nat
  day :: nat

definition digit :: "char \<Rightarrow> nat option" where
  "digit c = (let n = (of_char c :: nat) in if 48 \<le> n \<and> n \<le> 57 then Some (n - 48) else None)"

fun number_from :: "nat \<Rightarrow> string \<Rightarrow> nat option" where
  "number_from acc [] = Some acc"
| "number_from acc (c # cs) =
     (case digit c of None \<Rightarrow> None | Some d \<Rightarrow> number_from (10 * acc + d) cs)"

text \<open>A field of exactly \<open>n\<close> digits: its value and the rest of the string.\<close>

definition field :: "nat \<Rightarrow> string \<Rightarrow> (nat \<times> string) option" where
  "field n s =
     (if length s < n then None
      else case number_from 0 (take n s) of None \<Rightarrow> None | Some v \<Rightarrow> Some (v, drop n s))"

definition expect :: "char \<Rightarrow> string \<Rightarrow> string option" where
  "expect c s = (case s of [] \<Rightarrow> None | d # rest \<Rightarrow> if d = c then Some rest else None)"

definition is_leap :: "nat \<Rightarrow> bool" where
  "is_leap y = (y mod 4 = 0 \<and> (y mod 100 \<noteq> 0 \<or> y mod 400 = 0))"

definition days_in_month :: "nat \<Rightarrow> nat \<Rightarrow> nat" where
  "days_in_month y m =
     (if m = 2 \<and> is_leap y then 29
      else [31, 28, 31, 30, 31, 30, 31, 31, 30, 31, 30, 31] ! (m - 1))"

definition days_before_year :: "nat \<Rightarrow> int" where
  "days_before_year y = (let y = int y - 1 in y * 365 + y div 4 - y div 100 + y div 400)"

definition days_before_month :: "nat \<Rightarrow> nat \<Rightarrow> int" where
  "days_before_month y m =
     int ([0, 31, 59, 90, 120, 151, 181, 212, 243, 273, 304, 334] ! (m - 1))
       + (if m > 2 \<and> is_leap y then 1 else 0)"

definition ymd2ord :: "nat \<Rightarrow> nat \<Rightarrow> nat \<Rightarrow> int" where
  "ymd2ord y m d = days_before_year y + days_before_month y m + int d"

definition isoweek1monday :: "nat \<Rightarrow> int" where
  "isoweek1monday y =
     (let firstday = ymd2ord y 1 1;
          firstweekday = (firstday + 6) mod 7;
          week1monday = firstday - firstweekday
      in if firstweekday > 3 then week1monday + 7 else week1monday)"

text \<open>\<open>date.isocalendar()\<close>: the ISO year, the ISO week and the ISO weekday.\<close>

definition isocalendar :: "date \<Rightarrow> int \<times> int \<times> int" where
  "isocalendar dt =
     (let y = year dt;
          week1monday = isoweek1monday y;
          today = ymd2ord (year dt) (month dt) (day dt);
          week = (today - week1monday) div 7;
          wd = (today - week1monday) mod 7
      in if week < 0
         then
           let week1monday = isoweek1monday (y - 1)
           in (int y - 1, (today - week1monday) div 7 + 1, (today - week1monday) mod 7 + 1)
         else if week \<ge> 52 \<and> today \<ge> isoweek1monday (y + 1)
         then (int y + 1, 1, wd + 1)
         else (int y, week + 1, wd + 1))"

definition parse_isoformat_date :: "string \<Rightarrow> (date \<times> string) option" where
  "parse_isoformat_date s =
     Option.bind (field 4 s) (\<lambda>(y, s).
     Option.bind (expect CHR ''-'' s) (\<lambda>s.
     Option.bind (field 2 s) (\<lambda>(m, s).
     Option.bind (expect CHR ''-'' s) (\<lambda>s.
     Option.bind (field 2 s) (\<lambda>(d, s).
       if 1 \<le> y \<and> 1 \<le> m \<and> m \<le> 12 \<and> 1 \<le> d \<and> d \<le> days_in_month y m
       then Some (\<lparr>year = y, month = m, day = d\<rparr>, s) else None)))))"

text \<open>\<open>HH[:MM[:SS]]\<close>: the number of fields read and the rest.\<close>

definition hh_mm_ss :: "string \<Rightarrow> (nat \<times> string) option" where
  "hh_mm_ss s =
     Option.bind (field 2 s) (\<lambda>(h, s).
       if h \<ge> 24 then None
       else if s = [] \<or> hd s \<noteq> CHR '':'' then Some (1, s)
       else Option.bind (field 2 (tl s)) (\<lambda>(m, s).
         if m \<ge> 60 then None
         else if s = [] \<or> hd s \<noteq> CHR '':'' then Some (2, s)
         else Option.bind (field 2 (tl s)) (\<lambda>(sec, s).
           if sec \<ge> 60 then None else Some (3, s))))"

definition fraction :: "string \<Rightarrow> string option" where
  "fraction s =
     (if s = [] \<or> hd s \<noteq> CHR ''.'' then Some s
      else case field 6 (tl s) of
             Some (f, rest) \<Rightarrow> Some rest
           | None \<Rightarrow> (case field 3 (tl s) of Some (f, rest) \<Rightarrow> Some rest | None \<Rightarrow> None))"

definition utc_offset :: "string \<Rightarrow> bool" where
  "utc_offset s =
     (case hh_mm_ss s of
        None \<Rightarrow> False
      | Some (k, rest) \<Rightarrow>
          if k < 2 then False
          else if rest = [] then True
          else k = 3 \<and> hd rest = CHR ''.'' \<and>
               (case field 6 (tl rest) of Some (f, r) \<Rightarrow> r = [] | None \<Rightarrow> False))"

definition parse_isoformat_time :: "string \<Rightarrow> bool" where
  "parse_isoformat_time s =
     (case hh_mm_ss s of
        None \<Rightarrow> False
      | Some (k, rest) \<Rightarrow>
          (case (if k = 3 then fraction rest else Some rest) of
             None \<Rightarrow> False
           | Some rest \<Rightarrow>
               rest = [] \<or> ((hd rest = CHR ''+'' \<or> hd rest = CHR ''-'') \<and> utc_offset (tl rest))))"

text \<open>\<open>datetime.fromisoformat\<close>: \<open>None\<close> is the \<open>ValueError\<close>. Only the date is used.\<close>

definition fromisoformat :: "string \<Rightarrow> date option" where
  "fromisoformat s =
     (case parse_isoformat_date s of
        None \<Rightarrow> None
      | Some (d, rest) \<Rightarrow>
          if rest = [] then Some d
          else if parse_isoformat_time (tl rest) then Some d else None)"

text \<open>\<open>str(n)\<close> for a natural number.\<close>

fun str_nat :: "nat \<Rightarrow> string" where
  "str_nat n =
     (if n < 10 then [''0123456789'' ! n]
      else str_nat (n div 10) @ [''0123456789'' ! (n mod 10)])"

section \<open>Summarization\<close>

text \<open>\<open>f"{date.year}-W{date.isocalendar()[1]}"\<close>\<close>

definition week_key :: "date \<Rightarrow> string" where
  "week_key dt = str_nat (year dt) @ ''-W'' @ str_nat (nat (fst (snd (isocalendar dt))))"

text \<open>
  \<open>weekly_groups\<close> is a dictionary from week keys to lists, in insertion order: this is
  \<open>weekly_groups[week_key].append(conv)\<close>, after the key was created when it was new.
\<close>

fun group_append ::
  "string \<Rightarrow> interaction \<Rightarrow> (string \<times> interaction list) list \<Rightarrow>
   (string \<times> interaction list) list" where
  "group_append k conv [] = [(k, [] @ [conv])]"
| "group_append k conv ((k', convs) # groups) =
     (if k' = k then (k', convs @ [conv]) # groups
      else (k', convs) # group_append k conv groups)"

text \<open>The first loop of \<open>_group_conversations_by_time\<close>; an unparsable timestamp continues.\<close>

fun group_weeks ::
  "interaction list \<Rightarrow> (string \<times> interaction list) list \<Rightarrow>
   (string \<times> interaction list) list" where
  "group_weeks [] weekly_groups = weekly_groups"
| "group_weeks (conv # rest) weekly_groups =
     (case fromisoformat (timestamp conv) of
        None \<Rightarrow> group_weeks rest weekly_groups
      | Some dt \<Rightarrow> group_weeks rest (group_append (week_key dt) conv weekly_groups))"

text \<open>\<open>MemorySystem._create_weekly_summary\<close>; \<open>conversations[0]\<close> raises on an empty list.\<close>

definition create_weekly_summary :: "string \<Rightarrow> interaction list \<Rightarrow> error + summary" where
  "create_weekly_summary week conversations =
     (let all_text = join '' ''
            (map (\<lambda>c. user_message c @ '' '' @ assistant_response c) conversations);
          terms = extract_terms (lower all_text);
          top_terms = most_common 10 (Counter terms)
      in if conversations = [] then Inl IndexError
         else Inr
           \<lparr>period = week,
            conversation_count = length conversations,
            date_range = (timestamp (hd conversations), timestamp (last conversations)),
            main_topics = map fst top_terms,
            total_tokens =
              sum_list (map (\<lambda>c. case tokens_used c of None \<Rightarrow> 0 | Some t \<Rightarrow> t) conversations),
            summary_text =
              ''Per'' @ [CHR 0xED] @ ''odo '' @ week @ '': '' @ str_nat (length conversations)
              @ '' conversaciones sobre temas como '' @ join '', '' (map fst (take 5 top_terms))\<rparr>)"

text \<open>The second loop of \<open>_group_conversations_by_time\<close>; an exception leaves the loop.\<close>

fun summarize_weeks ::
  "(string \<times> interaction list) list \<Rightarrow> summary list \<Rightarrow> error + summary list" where
  "summarize_weeks [] summaries = Inr summaries"
| "summarize_weeks ((week, convs) # groups) summaries =
     (if length convs \<ge> 5
      then case create_weekly_summary week convs of
             Inl e \<Rightarrow> Inl e
           | Inr summary \<Rightarrow> summarize_weeks groups (summaries @ [summary])
      else summarize_weeks groups summaries)"

text \<open>\<open>MemorySystem._group_conversations_by_time\<close>\<close>

definition group_conversations_by_time :: "interaction list \<Rightarrow> error + summary list" where
  "group_conversations_by_time conversations =
     (let summaries = [];
          weekly_groups = group_weeks conversations []
      in summarize_weeks weekly_groups summaries)"

text \<open>\<open>MemorySystem._save_summaries\<close>\<close>

definition save_summaries :: "summary list \<Rightarrow> memory_system \<Rightarrow> memory_system" where
  "save_summaries summaries st =
     (case summary_file st of
        Missing \<Rightarrow> st\<lparr>summary_file := Content ([] @ summaries)\<rparr>
      | Unreadable \<Rightarrow> st
      | Content existing_summaries \<Rightarrow> st\<lparr>summary_file := Content (existing_summaries @ summaries)\<rparr>)"

text \<open>\<open>MemorySystem._create_conversation_summary\<close>; an exception is logged and dropped.\<close>

definition create_conversation_summary :: "interaction list \<Rightarrow> memory_system \<Rightarrow> memory_system" where
  "create_conversation_summary history st =
     (let conversations_to_summarize = slice_to (- int SHORT_TERM_MEMORY_LIMIT) history
      in if length conversations_to_summarize < 10 then st
         else case group_conversations_by_time conversations_to_summarize of
                Inl e \<Rightarrow> st
              | Inr summaries \<Rightarrow> save_summaries summaries st)"

text \<open>\<open>MemorySystem._check_and_summarize\<close>\<close>

definition check_and_summarize :: "memory_system \<Rightarrow> memory_system" where
  "check_and_summarize st =
     (case memory_file st of
        Missing \<Rightarrow> st
      | Unreadable \<Rightarrow> st
      | Content history \<Rightarrow>
          if length history \<ge> LONG_TERM_SUMMARY_THRESHOLD
          then create_conversation_summary history st else st)"

section \<open>Adding an interaction\<close>

text \<open>The dictionary built by \<open>add_interaction\<close>; \<open>now\<close> is \<open>datetime.now().isoformat()\<close>.\<close>

definition new_interaction ::
  "string \<Rightarrow> string \<Rightarrow> string \<Rightarrow> (string \<times> string) list option \<Rightarrow> interaction" where
  "new_interaction now user_msg assistant_msg meta =
     \<lparr>timestamp = now,
      user_message = user_msg,
      assistant_response = assistant_msg,
      metadata = (case meta of None \<Rightarrow> [] | Some m \<Rightarrow> m),
      tokens_used = Some (estimate_tokens (user_msg @ assistant_msg)),
      relevance_score = 1\<rparr>"

text \<open>\<open>MemorySystem.add_interaction\<close>; \<open>pop(0)\<close> removes the head of a list that is not empty.\<close>

definition add_interaction ::
  "string \<Rightarrow> string \<Rightarrow> string \<Rightarrow> (string \<times> string) list option \<Rightarrow> memory_system \<Rightarrow>
   memory_system" where
  "add_interaction now user_msg assistant_msg meta st =
     (let interaction = new_interaction now user_msg assistant_msg meta;
          st = st\<lparr>short_term_memory := short_term_memory st @ [interaction]\<rparr>;
          st = (if length (short_term_memory st) > SHORT_TERM_MEMORY_LIMIT
                then st\<lparr>short_term_memory := tl (short_term_memory st)\<rparr> else st);
          st = save_to_long_term interaction st;
          st = check_and_summarize st
      in st)"

text \<open>A sequence of calls, each with its clock reading and its arguments.\<close>

fun add_interactions ::
  "(string \<times> string \<times> string \<times> (string \<times> string) list option) list \<Rightarrow> memory_system \<Rightarrow>
   memory_system" where
  "add_interactions [] st = st"
| "add_interactions ((now, u, a, m) # calls) st = add_interactions calls (add_interaction now u a m st)"

section \<open>Context composition\<close>

record message =
  role :: string
  content :: string

text \<open>
  A provenance tag. The code writes the strings \<open>recent\<close>, \<open>relevant (score: X.XX)\<close> and
  \<open>summary\<close>; the tag of a relevant conversation carries the score, not its rendering to
  two decimals.
\<close>

datatype source = Recent | Relevant rat | Summary

text \<open>\<open>xs.insert(0, x)\<close>\<close>

definition insert0 :: "'a \<Rightarrow> 'a list \<Rightarrow> 'a list" where
  "insert0 x xs = x # xs"

text \<open>\<open>conv.get('tokens_used', self._estimate_tokens(user + assistant))\<close>\<close>

definition get_tokens :: "interaction \<Rightarrow> int" where
  "get_tokens conv =
     (case tokens_used conv of
        Some t \<Rightarrow> t
      | None \<Rightarrow> estimate_tokens (user_message conv @ assistant_response conv))"

text \<open>
  Step 1 of \<open>get_intelligent_context\<close>: the loop over \<open>reversed(self.short_term_memory)\<close>,
  on \<open>context_messages\<close>, \<open>context_sources\<close> and \<open>current_tokens\<close>. The first interaction
  that does not fit ends the loop.
\<close>

fun include_recent ::
  "int \<Rightarrow> interaction list \<Rightarrow> message list \<times> source list \<times> int \<Rightarrow>
   message list \<times> source list \<times> int" where
  "include_recent max_tokens [] acc = acc"
| "include_recent max_tokens (interaction # rest) (context_messages, context_sources, current_tokens) =
     (let interaction_tokens = get_tokens interaction
      in if current_tokens + interaction_tokens > max_tokens
         then (context_messages, context_sources, current_tokens)
         else
           let context_messages =
                 insert0 \<lparr>role = ''user'', content = user_message interaction\<rparr> context_messages;
               context_messages =
                 insert0 \<lparr>role = ''assistant'', content = assistant_response interaction\<rparr>
                   context_messages;
               current_tokens = current_tokens + interaction_tokens;
               context_sources = insert0 Recent context_sources
           in include_recent max_tokens rest (context_messages, context_sources, current_tokens))"

text \<open>Step 2: the loop over the search results.\<close>

fun include_relevant ::
  "int \<Rightarrow> interaction list \<Rightarrow> interaction list \<Rightarrow> message list \<times> source list \<times> int \<Rightarrow>
   message list \<times> source list \<times> int" where
  "include_relevant max_tokens window [] acc = acc"
| "include_relevant max_tokens window (conv # rest) (context_messages, context_sources, current_tokens) =
     (if \<not> (\<exists>c\<in>set window. timestamp c = timestamp conv)
      then
        let conv_tokens = get_tokens conv
        in if current_tokens + conv_tokens \<le> max_tokens
           then
             let context_messages =
                   context_messages @ [\<lparr>role = ''user'', content = user_message conv\<rparr>];
                 context_messages =
                   context_messages @ [\<lparr>role = ''assistant'', content = assistant_response conv\<rparr>];
                 current_tokens = current_tokens + conv_tokens;
                 context_sources = context_sources @ [Relevant (relevance_score conv)]
             in include_relevant max_tokens window rest
                  (context_messages, context_sources, current_tokens)
           else include_relevant max_tokens window rest
                  (context_messages, context_sources, current_tokens)
      else include_relevant max_tokens window rest
             (context_messages, context_sources, current_tokens))"

text \<open>\<open>MemorySystem._get_relevant_summaries\<close>\<close>

definition get_relevant_summaries :: "memory_system \<Rightarrow> string \<Rightarrow> string" where
  "get_relevant_summaries st query =
     (if conversation_summaries st = [] then []
      else
        let query_terms = set (extract_terms (lower query));
            relevant_summaries =
              map summary_text
                (filter (\<lambda>summary. query_terms \<inter> set (main_topics summary) \<noteq> {})
                   (conversation_summaries st))
        in join '' '' (take 2 relevant_summaries))"

definition summary_prefix :: string where
  "summary_prefix = ''Resumen de conversaciones anteriores: ''"

text \<open>\<open>MemorySystem.get_intelligent_context\<close>\<close>

definition get_intelligent_context ::
  "memory_system \<Rightarrow> string \<Rightarrow> int option \<Rightarrow> message list \<times> source list" where
  "get_intelligent_context st current_message max_tokens =
     (let max_tokens = (case max_tokens of None \<Rightarrow> MAX_CONTEXT_TOKENS | Some m \<Rightarrow> m);
          (context_messages, context_sources, current_tokens) =
            include_recent max_tokens (rev (short_term_memory st)) ([], [], 0);
          remaining_tokens = max_tokens - current_tokens;
          (context_messages, context_sources, current_tokens) =
            (if remaining_tokens > 200
             then
               let relevant_conversations =
                     search_relevant_conversations (memory_file st) current_message (Some 3)
               in include_relevant max_tokens (short_term_memory st) relevant_conversations
                    (context_messages, context_sources, current_tokens)
             else (context_messages, context_sources, current_tokens))
      in if conversation_summaries st \<noteq> [] \<and> remaining_tokens > 100
         then
           let summary_text = get_relevant_summaries st current_message
           in if summary_text \<noteq> []
              then
                let summary_tokens = estimate_tokens summary_text
                in if current_tokens + summary_tokens \<le> max_tokens
                   then (insert0 \<lparr>role = ''system'', content = summary_prefix @ summary_text\<rparr>
                           context_messages,
                         insert0 Summary context_sources)
                   else (context_messages, context_sources)
              else (context_messages, context_sources)
         else (context_messages, context_sources))"

text \<open>
  The units a call includes, in the order of the returned messages, with the messages each
  contributes and its estimated token cost: the stored \<open>tokens_used\<close> of an interaction
  (the estimate of its two texts when absent), and the estimate of the text of the
  summary message.
\<close>

datatype context_unit =
  SummaryUnit string | RecentUnit interaction | RelevantUnit interaction

fun unit_cost :: "context_unit \<Rightarrow> int" where
  "unit_cost (SummaryUnit s) = estimate_tokens (summary_prefix @ s)"
| "unit_cost (RecentUnit i) = get_tokens i"
| "unit_cost (RelevantUnit c) = get_tokens c"

fun unit_messages :: "context_unit \<Rightarrow> message list" where
  "unit_messages (SummaryUnit s) = [\<lparr>role = ''system'', content = summary_prefix @ s\<rparr>]"
| "unit_messages (RecentUnit i) =
     [\<lparr>role = ''assistant'', content = assistant_response i\<rparr>,
      \<lparr>role = ''user'', content = user_message i\<rparr>]"
| "unit_messages (RelevantUnit c) =
     [\<lparr>role = ''user'', content = user_message c\<rparr>,
      \<lparr>role = ''assistant'', content = assistant_response c\<rparr>]"

fun unit_source :: "context_unit \<Rightarrow> source" where
  "unit_source (SummaryUnit s) = Summary"
| "unit_source (RecentUnit i) = Recent"
| "unit_source (RelevantUnit c) = Relevant (relevance_score c)"

text \<open>
  The interactions of the window that fit, newest first in the argument and oldest first
  in the result.
\<close>

fun recent_units :: "int \<Rightarrow> int \<Rightarrow> interaction list \<Rightarrow> interaction list" where
  "recent_units max_tokens current_tokens [] = []"
| "recent_units max_tokens current_tokens (i # rest) =
     (if current_tokens + get_tokens i > max_tokens then []
      else recent_units max_tokens (current_tokens + get_tokens i) rest @ [i])"

fun relevant_units ::
  "int \<Rightarrow> interaction list \<Rightarrow> int \<Rightarrow> interaction list \<Rightarrow> interaction list" where
  "relevant_units max_tokens window current_tokens [] = []"
| "relevant_units max_tokens window current_tokens (c # rest) =
     (if timestamp c \<notin> timestamp ` set window \<and> current_tokens + get_tokens c \<le> max_tokens
      then c # relevant_units max_tokens window (current_tokens + get_tokens c) rest
      else relevant_units max_tokens window current_tokens rest)"

definition context_units :: "memory_system \<Rightarrow> string \<Rightarrow> int option \<Rightarrow> context_unit list" where
  "context_units st current_message max_tokens =
     (let budget = (case max_tokens of None \<Rightarrow> MAX_CONTEXT_TOKENS | Some m \<Rightarrow> m);
          recent = recent_units budget 0 (rev (short_term_memory st));
          spent = sum_list (map get_tokens recent);
          relevant =
            (if budget - spent > 200
             then relevant_units budget (short_term_memory st) spent
                    (search_relevant_conversations (memory_file st) current_message (Some 3))
             else []);
          total = spent + sum_list (map get_tokens relevant);
          s = get_relevant_summaries st current_message
      in (if conversation_summaries st \<noteq> [] \<and> budget - spent > 100 \<and> s \<noteq> []
             \<and> total + estimate_tokens s \<le> budget
          then [SummaryUnit s] else [])
         @ map RecentUnit recent @ map RelevantUnit relevant)"

section \<open>Example data\<close>

text \<open>Two stored conversations about the weather, the first also in the window.\<close>

definition weather_a :: interaction where
  "weather_a = new_interaction ''2024-01-02T10:00:00'' ''clima'' ''soleado'' None"

definition weather_b :: interaction where
  "weather_b = new_interaction ''2024-01-03T10:00:00'' ''clima clima'' ''lluvia'' None"

definition weather_state :: memory_system where
  "weather_state =
     \<lparr>short_term_memory = [weather_a], conversation_summaries = [],
      memory_file = Content [weather_a, weather_b], summary_file = Missing\<rparr>"



text \<open>No conversation yet, and one stored summary of 400 characters about the weather.\<close>

definition long_summary_state :: memory_system where
  "long_summary_state =
     \<lparr>short_term_memory = [],
      conversation_summaries =
        [\<lparr>period = ''2024-W1'', conversation_count = 5,
          date_range = (''2024-01-02T10:00:00'', ''2024-01-05T10:00:00''),
          main_topics = [''clima''], total_tokens = 20,
          summary_text = replicate 400 CHR ''x''\<rparr>],
      memory_file = Missing, summary_file = Missing\<rparr>"

definition weather_objects :: object_state where
  "weather_objects =
     \<lparr>objects = [weather_a], window_refs = [0], history_file = Content [weather_a, weather_b]\<rparr>"

text \<open>
  Ten candidates for summarization: five of Tuesday 2 January 2024, in ISO week 1 of
  2024, and five of Monday 30 December 2024, in ISO week 1 of 2025.
\<close>

definition year_end_candidates :: "interaction list" where
  "year_end_candidates =
     map (\<lambda>t. new_interaction t ''sol'' ''mar'' None)
       [''2024-01-02T09:00:00'', ''2024-01-02T09:01:00'', ''2024-01-02T09:02:00'',
        ''2024-01-02T09:03:00'', ''2024-01-02T09:04:00'',
        ''2024-12-30T09:00:00'', ''2024-12-30T09:01:00'', ''2024-12-30T09:02:00'',
        ''2024-12-30T09:03:00'', ''2024-12-30T09:04:00'']"

section \<open>Properties of term extraction\<close>

lemma split_from_nonempty: "[] \<notin> set (split_from w cs)"
  by (induction cs arbitrary: w) simp_all

lemma split_from_chars:
  "t \<in> set (split_from w cs) \<Longrightarrow> c \<in> set t \<Longrightarrow> c \<in> set w \<or> (c \<in> set cs \<and> \<not> isspace c)"
proof (induction cs arbitrary: w)
  case Nil
  then show ?case by (simp split: if_splits)
next
  case (Cons d cs)
  show ?case
  proof (cases "isspace d")
    case True
    then have "t = w \<or> t \<in> set (split_from [] cs)"
      using Cons.prems(1) by (simp split: if_splits)
    then show ?thesis
    proof
      assume "t = w" with Cons.prems(2) show ?thesis by simp
    next
      assume "t \<in> set (split_from [] cs)"
      from Cons.IH [OF this Cons.prems(2)] show ?thesis by simp
    qed
  next
    case False
    then have "t \<in> set (split_from (w @ [d]) cs)"
      using Cons.prems(1) by simp
    from Cons.IH [OF this Cons.prems(2)] False show ?thesis by auto
  qed
qed

lemma split_props:
  "t \<in> set (split s) \<Longrightarrow> t \<noteq> [] \<and> (\<forall>c\<in>set t. \<not> isspace c \<and> c \<in> set s)"
  using split_from_nonempty [of "[]" s] split_from_chars [of t "[]" s]
  by (auto simp: split_def)

lemma split_from_run:
  "\<forall>c\<in>set t. \<not> isspace c \<Longrightarrow> split_from w (t @ cs) = split_from (w @ t) cs"
  by (induction t arbitrary: w) auto

lemma isspace_space: "isspace CHR '' ''"
  by (simp add: isspace_def)

lemma split_join:
  "\<forall>t\<in>set ts. t \<noteq> [] \<and> (\<forall>c\<in>set t. \<not> isspace c) \<Longrightarrow> split (join '' '' ts) = ts"
proof (induction "'' ''" ts rule: join.induct)
  case 1
  then show ?case by (simp add: split_def)
next
  case (2 p)
  then show ?case using split_from_run [of p "[]" "[]"] by (simp add: split_def)
next
  case (3 p q ps)
  have "split_from [] (p @ CHR '' '' # join '' '' (q # ps)) = split_from p (CHR '' '' # join '' '' (q # ps))"
    using 3 split_from_run [of p "[]"] by simp
  also have "\<dots> = p # split_from [] (join '' '' (q # ps))"
    using 3 by (simp add: isspace_space)
  finally show ?case using 3 by (simp add: split_def)
qed

lemma re_sub_punct_id:
  "\<forall>c\<in>set s. word_char c \<or> isspace c \<Longrightarrow> re_sub_punct s = s"
  by (induction s) (auto simp: re_sub_punct_def)

lemma set_join: "c \<in> set (join sep ts) \<Longrightarrow> c \<in> set sep \<or> (\<exists>t\<in>set ts. c \<in> set t)"
  by (induction sep ts rule: join.induct) auto

lemma re_sub_punct_chars: "c \<in> set (re_sub_punct text) \<Longrightarrow> word_char c \<or> isspace c"
  by (auto simp: re_sub_punct_def isspace_space split: if_splits)

lemma extract_terms_props:
  assumes "t \<in> set (extract_terms text)"
  shows "t \<noteq> []" "\<forall>c\<in>set t. \<not> isspace c \<and> word_char c" "length t > 2" "t \<notin> set stop_words"
proof -
  from assms have t: "t \<in> set (split (re_sub_punct text))" and f: "length t > 2" "t \<notin> set stop_words"
    by (auto simp: extract_terms_def)
  from split_props [OF t] have ne: "t \<noteq> []" and ch: "\<forall>c\<in>set t. \<not> isspace c \<and> c \<in> set (re_sub_punct text)"
    by auto
  show "t \<noteq> []" by (rule ne)
  show "\<forall>c\<in>set t. \<not> isspace c \<and> word_char c" using ch re_sub_punct_chars by blast
  show "length t > 2" "t \<notin> set stop_words" using f by auto
qed

lemma char_lower_not_underscore: "c \<noteq> CHR ''_'' \<Longrightarrow> char_lower c = CHR ''_'' \<Longrightarrow> False"
proof -
  assume ne: "c \<noteq> CHR ''_''" and eq: "char_lower c = CHR ''_''"
  let ?n = "of_char c :: nat"
  show False
  proof (cases "(65 \<le> ?n \<and> ?n \<le> 90) \<or> (192 \<le> ?n \<and> ?n \<le> 214) \<or> (216 \<le> ?n \<and> ?n \<le> 222)")
    case True
    then have "char_lower c = char_of (?n + 32)" by (simp add: char_lower_def)
    then have "(of_char (char_lower c) :: nat) = (?n + 32) mod 256" by simp
    moreover have "(?n + 32) mod 256 = ?n + 32" using True by auto
    moreover have "(of_char (char_lower c) :: nat) = 95" using eq by simp
    ultimately show False using True by auto
  next
    case False
    then have "char_lower c = c" unfolding char_lower_def Let_def by (simp only: if_False)
    with ne eq show False by simp
  qed
qed

lemma re_sub_punct_no_underscore:
  "CHR ''_'' \<notin> set s \<Longrightarrow>
   re_sub_punct s = map (\<lambda>c. if isalnum c \<or> isspace c then c else CHR '' '') s"
  by (induction s) (auto simp: re_sub_punct_def word_char_def)

text \<open>
  C8. Extracting the terms of the extracted terms, joined by single spaces, gives the same
  sequence of terms again, in the same order; and no extracted term is a stop word or has
  length at most 2.
\<close>

theorem extract_terms_idempotent:
  "extract_terms (join '' '' (extract_terms text)) = extract_terms text
   \<and> (\<forall>t\<in>set (extract_terms text). t \<notin> set stop_words \<and> \<not> length t \<le> 2)"
proof -
  let ?E = "extract_terms text"
  have chars: "\<forall>c\<in>set (join '' '' ?E). word_char c \<or> isspace c"
  proof
    fix c assume "c \<in> set (join '' '' ?E)"
    then have "c \<in> set '' '' \<or> (\<exists>t\<in>set ?E. c \<in> set t)" by (rule set_join)
    then show "word_char c \<or> isspace c"
      using extract_terms_props(2) by (auto simp: isspace_space)
  qed
  have "split (re_sub_punct (join '' '' ?E)) = ?E"
    using re_sub_punct_id [OF chars] split_join [of ?E] extract_terms_props(1,2) by auto
  then have "extract_terms (join '' '' ?E) = filter (\<lambda>term. length term > 2 \<and> term \<notin> set stop_words) ?E"
    by (simp add: extract_terms_def)
  also have "\<dots> = ?E"
    by (simp add: extract_terms_def)
  finally have idem: "extract_terms (join '' '' ?E) = ?E" .
  have "\<forall>t\<in>set ?E. t \<notin> set stop_words \<and> \<not> length t \<le> 2"
  proof
    fix t assume t: "t \<in> set ?E"
    show "t \<notin> set stop_words \<and> \<not> length t \<le> 2"
      using extract_terms_props(3) [OF t] extract_terms_props(4) [OF t] by simp
  qed
  with idem show ?thesis by simp
qed

theorem extract_terms_idempotent_witness:
  "''tiempo'' \<in> set (extract_terms ''el tiempo de hoy'')
   \<and> ''tiempo'' \<notin> set stop_words \<and> \<not> length ''tiempo'' \<le> 2
   \<and> extract_terms (join '' '' (extract_terms ''el tiempo de hoy'')) = [''tiempo'', ''hoy'']"
proof -
  have v: "extract_terms ''el tiempo de hoy'' = [''tiempo'', ''hoy'']"
    by code_simp
  show ?thesis
    using extract_terms_idempotent [of "''el tiempo de hoy''"] by (simp add: v)
qed

text \<open>
  C5, as stated: \<open>extract_terms\<close> equals the reference pipeline on every string. It does
  not: \<open>extract_terms\<close> does not lowercase (its callers do, before the call), and the
  underscore is a word character of the regular expression.
\<close>

theorem extract_terms_refines_counterexample:
  "extract_terms ''HELLO'' \<noteq> spec_extract_terms ''HELLO''
   \<and> extract_terms ''foo_bar'' \<noteq> spec_extract_terms ''foo_bar''"
proof -
  have "extract_terms ''HELLO'' = [''HELLO'']" by code_simp
  moreover have "spec_extract_terms ''HELLO'' = [''hello'']" by code_simp
  moreover have "extract_terms ''foo_bar'' = [''foo_bar'']" by code_simp
  moreover have "spec_extract_terms ''foo_bar'' = [''foo'', ''bar'']" by code_simp
  ultimately show ?thesis by simp
qed

text \<open>
  C5, amended. On a string without underscore, \<open>extract_terms\<close> of the lowercased string,
  which is how every caller uses it, equals the reference pipeline.
\<close>

theorem extract_terms_refines:
  assumes "CHR ''_'' \<notin> set s"
  shows "extract_terms (lower s) = spec_extract_terms s"
proof -
  have "CHR ''_'' \<notin> set (lower s)"
  proof
    assume "CHR ''_'' \<in> set (lower s)"
    then obtain c where c: "c \<in> set s" "char_lower c = CHR ''_''"
      unfolding lower_def by (metis (no_types) imageE list.set_map)
    from c(1) assms have "c \<noteq> CHR ''_''" by blast
    from char_lower_not_underscore [OF this c(2)] show False .
  qed
  then have sub: "re_sub_punct (lower s) =
      map (\<lambda>c. if isalnum c \<or> isspace c then c else CHR '' '') (lower s)"
    by (rule re_sub_punct_no_underscore)
  have fl: "\<And>xs. filter (\<lambda>t. length t > 2 \<and> t \<notin> set stop_words) xs
      = filter (\<lambda>t. t \<notin> set stop_words) (filter (\<lambda>t. \<not> length t \<le> 2) xs)"
    by (rule filter_cong [THEN trans, OF refl _ filter_filter [symmetric]]) auto
  show ?thesis
    unfolding extract_terms_def spec_extract_terms_def Let_def sub fl ..
qed

theorem extract_terms_refines_witness:
  "CHR ''_'' \<notin> set ''Hola, Mundo!''
   \<and> extract_terms (lower ''Hola, Mundo!'') = spec_extract_terms ''Hola, Mundo!''
   \<and> spec_extract_terms ''Hola, Mundo!'' = [''hola'', ''mundo'']"
proof -
  have h: "CHR ''_'' \<notin> set ''Hola, Mundo!''" by simp
  have v: "spec_extract_terms ''Hola, Mundo!'' = [''hola'', ''mundo'']" by code_simp
  show ?thesis using h extract_terms_refines [OF h] v by simp
qed

section \<open>Properties of the relevance search\<close>

text \<open>
  Rounding at work: an exact quotient, a quotient that is rounded, and the two ways a sum
  halfway between two doubles goes to the even one.
\<close>

lemma double_examples:
  "double 1 = 1 \<and> float_div 1 2 = 1 / 2
   \<and> float_div 1 3 = 6004799503160661 / 18014398509481984
   \<and> float_add (2 ^ 53) 1 = 2 ^ 53
   \<and> float_add (2 ^ 53 + 2) 1 = 2 ^ 53 + 4"
  by code_simp

text \<open>
  Sums of doubles are not sums of rationals: \<open>0.1 + 0.1 + 0.1\<close> is the double above
  \<open>0.3\<close>, and the two scores of the stored conversations \<open>tie_a\<close> and \<open>tie_b\<close> differ.
\<close>

lemma float_sum_above_quotient:
  "float_div 3 10 = 5404319552844595 / 18014398509481984
   \<and> float_add (float_add (float_div 1 10) (float_div 1 10)) (float_div 1 10)
       = 1351079888211149 / 4503599627370496"
  by code_simp

lemma score_conversations_eq:
  "score_conversations qt convs acc =
     acc @ map (\<lambda>c. c\<lparr>relevance_score := conversation_score qt c\<rparr>)
             (filter (\<lambda>c. conversation_score qt c > 0) convs)"
  by (induction convs arbitrary: acc) (simp_all add: Let_def)














section \<open>The search on objects leaves the stored records alone\<close>

lemma new_object_prefix: "new_object v objs = (r, objs') \<Longrightarrow> r = length objs \<and> objs' = objs @ [v]"
  by (auto simp: new_object_def)

lemma json_load_eq:
  "json_load vs objs = ([length objs ..< length objs + length vs], objs @ vs)"
proof (induction vs arbitrary: objs)
  case Nil
  then show ?case by simp
next
  case (Cons v vs)
  have "[length objs ..< length objs + length (v # vs)]
      = length objs # [Suc (length objs) ..< Suc (length objs) + length vs]"
    by (simp add: upt_rec)
  then show ?case using Cons [of "objs @ [v]"] by (simp add: new_object_def)
qed

lemma score_refs_eq:
  "\<forall>r\<in>set convs. r < length objs \<Longrightarrow>
   score_refs qt convs scored objs =
     (scored @ [length objs ..<
                 length objs + length (score_conversations qt (map ((!) objs) convs) [])],
      objs @ score_conversations qt (map ((!) objs) convs) [])"
proof (induction convs arbitrary: scored objs)
  case Nil
  then show ?case by simp
next
  case (Cons conv rest)
  let ?score = "conversation_score qt (objs ! conv)"
  show ?case
  proof (cases "?score > 0")
    case False
    then have eq: "score_refs qt (conv # rest) scored objs = score_refs qt rest scored objs"
      by simp
    have sc: "score_conversations qt (map ((!) objs) (conv # rest)) []
        = score_conversations qt (map ((!) objs) rest) []"
      using False by simp
    show ?thesis unfolding eq sc using Cons.IH [of objs scored] Cons.prems by simp
  next
    case True
    let ?v = "(objs ! conv)\<lparr>relevance_score := ?score\<rparr>"
    let ?objs' = "objs @ [?v]"
    have eq: "score_refs qt (conv # rest) scored objs
        = score_refs qt rest (scored @ [length objs]) ?objs'"
      using True by (simp add: new_object_def)
    have valid: "\<forall>r\<in>set rest. r < length ?objs'" using Cons.prems by auto
    have same: "map ((!) ?objs') rest = map ((!) objs) rest"
      using Cons.prems by (simp add: nth_append)
    let ?tail = "score_conversations qt (map ((!) objs) rest) []"
    have sc: "score_conversations qt (map ((!) objs) (conv # rest)) [] = ?v # ?tail"
      using True by (simp add: score_conversations_eq)
    have "score_refs qt rest (scored @ [length objs]) ?objs'
        = ((scored @ [length objs]) @ [length ?objs' ..< length ?objs' + length ?tail],
           ?objs' @ ?tail)"
      using Cons.IH [OF valid, of "scored @ [length objs]"] unfolding same .
    moreover have "[length objs ..< length objs + length (?v # ?tail)]
        = length objs # [length ?objs' ..< length ?objs' + length ?tail]"
      by (simp add: upt_rec)
    ultimately show ?thesis unfolding eq sc by simp
  qed
qed

lemma map_nth_appended:
  "map ((!) (xs @ ys)) [length xs ..< length xs + length ys] = ys"
  by (rule nth_equalityI) (simp_all add: nth_append)

lemma map_insort_key:
  "map f (insort_key (\<lambda>x. g (f x)) x xs) = insort_key g (f x) (map f xs)"
  by (induction xs) simp_all

lemma map_sort_key:
  "map f (sort_key (\<lambda>x. g (f x)) xs) = sort_key g (map f xs)"
  by (induction xs) (simp_all add: map_insort_key)

lemma map_slice_to: "map f (slice_to n xs) = slice_to n (map f xs)"
  by (simp add: slice_to_def take_map)

lemma set_slice_to: "set (slice_to n xs) \<subseteq> set xs"
  by (simp add: slice_to_def set_take_subset)

text \<open>What the search on objects returns and the store it leaves, in closed form.\<close>

lemma search_refs_eq:
  assumes "history_file st = Content vals" "vals \<noteq> []"
  shows "search_relevant_conversations_refs query limit st =
     (slice_to (case limit of None \<Rightarrow> RELEVANCE_SEARCH_LIMIT | Some l \<Rightarrow> l)
        (sort_key
           (\<lambda>x. - relevance_score
              ((objects st @ vals @ score_conversations (extract_terms (lower query)) vals [])
                 ! x))
           [length (objects st @ vals) ..<
              length (objects st @ vals)
                + length (score_conversations (extract_terms (lower query)) vals [])]),
      st\<lparr>objects :=
           objects st @ vals @ score_conversations (extract_terms (lower query)) vals []\<rparr>)"
proof -
  let ?scored = "score_conversations (extract_terms (lower query)) vals []"
  let ?o1 = "objects st @ vals"
  let ?refs = "[length (objects st) ..< length (objects st) + length vals]"
  have load: "json_load vals (objects st) = (?refs, ?o1)" by (rule json_load_eq)
  have ne: "?refs \<noteq> []" using assms(2) by simp
  have valid: "\<forall>r\<in>set ?refs. r < length ?o1" by simp
  have vals: "map ((!) ?o1) ?refs = vals" by (rule map_nth_appended)
  have sc: "score_refs (extract_terms (lower query)) ?refs [] ?o1
      = ([length ?o1 ..< length ?o1 + length ?scored], ?o1 @ ?scored)"
    using score_refs_eq [OF valid, of "extract_terms (lower query)" "[]"]
    unfolding vals by simp
  show ?thesis
    unfolding search_relevant_conversations_refs_def assms(1) json_file.case load Let_def
      prod.case
    using ne sc by simp
qed

lemma search_refs_values:
  "map ((!) (objects (snd (search_relevant_conversations_refs query limit st))))
       (fst (search_relevant_conversations_refs query limit st))
   = search_relevant_conversations (history_file st) query limit"
proof (cases "history_file st")
  case Missing
  then show ?thesis
    by (simp add: search_relevant_conversations_refs_def search_relevant_conversations_def)
next
  case Unreadable
  then show ?thesis
    by (simp add: search_relevant_conversations_refs_def search_relevant_conversations_def)
next
  case (Content vals)
  show ?thesis
  proof (cases "vals = []")
    case True
    then show ?thesis using Content
      by (simp add: search_relevant_conversations_refs_def search_relevant_conversations_def)
  next
    case False
    let ?scored = "score_conversations (extract_terms (lower query)) vals []"
    let ?objs = "objects st @ vals @ ?scored"
    let ?refs = "[length (objects st @ vals) ..< length (objects st @ vals) + length ?scored]"
    have m: "map ((!) ?objs) ?refs = ?scored"
      using map_nth_appended [of "objects st @ vals" ?scored] by simp
    have "map ((!) ?objs) (sort_key (\<lambda>x. - relevance_score (?objs ! x)) ?refs)
        = sort_key (\<lambda>x. - relevance_score x) ?scored"
      using map_sort_key [of "(!) ?objs" "\<lambda>x. - relevance_score x" ?refs] unfolding m .
    then show ?thesis
      unfolding search_refs_eq [OF Content False] using Content False
      by (simp add: search_relevant_conversations_def map_slice_to)
  qed
qed

text \<open>
  C10. When every reference of the window is an object of the store, a search leaves the
  history file and the window as they were, every object that existed before the call
  has the same fields after it (the store only grows), so the window holds the same
  records, and each returned reference is an object made during the call: the score is
  assigned to copies only.
\<close>

theorem search_relevant_conversations_frame:
  assumes "\<forall>r\<in>set (window_refs st). r < length (objects st)"
  shows "history_file (snd (search_relevant_conversations_refs query limit st)) = history_file st
     \<and> window_refs (snd (search_relevant_conversations_refs query limit st)) = window_refs st
     \<and> prefix (objects st) (objects (snd (search_relevant_conversations_refs query limit st)))
     \<and> map ((!) (objects (snd (search_relevant_conversations_refs query limit st))))
           (window_refs st)
         = map ((!) (objects st)) (window_refs st)
     \<and> (\<forall>r\<in>set (fst (search_relevant_conversations_refs query limit st)).
           length (objects st) \<le> r)"
proof -
  let ?R = "search_relevant_conversations_refs query limit st"
  have main: "history_file (snd ?R) = history_file st \<and> window_refs (snd ?R) = window_refs st
      \<and> prefix (objects st) (objects (snd ?R))
      \<and> (\<forall>r\<in>set (fst ?R). length (objects st) \<le> r)"
  proof (cases "history_file st")
    case Missing
    then show ?thesis by (simp add: search_relevant_conversations_refs_def)
  next
    case Unreadable
    then show ?thesis by (simp add: search_relevant_conversations_refs_def)
  next
    case (Content vals)
    show ?thesis
    proof (cases "vals = []")
      case True
      then show ?thesis using Content by (simp add: search_relevant_conversations_refs_def)
    next
      case False
      have "\<forall>r\<in>set (fst ?R). length (objects st) \<le> r"
      proof
        fix r assume "r \<in> set (fst ?R)"
        then have "r \<in> set (sort_key (\<lambda>x. - relevance_score
              ((objects st @ vals @ score_conversations (extract_terms (lower query)) vals []) ! x))
           [length (objects st @ vals) ..< length (objects st @ vals)
              + length (score_conversations (extract_terms (lower query)) vals [])])"
          unfolding search_refs_eq [OF Content False] using set_slice_to by fastforce
        then show "length (objects st) \<le> r" by simp
      qed
      then show ?thesis unfolding search_refs_eq [OF Content False] by simp
    qed
  qed
  have "map ((!) (objects (snd ?R))) (window_refs st) = map ((!) (objects st)) (window_refs st)"
  proof (rule map_cong [OF refl])
    fix r assume "r \<in> set (window_refs st)"
    then have "r < length (objects st)" using assms by blast
    moreover from main obtain zs where "objects (snd ?R) = objects st @ zs"
      by (auto simp: prefix_def)
    ultimately show "objects (snd ?R) ! r = objects st ! r" by (simp add: nth_append)
  qed
  with main show ?thesis by simp
qed

theorem search_relevant_conversations_frame_witness:
  "window_refs weather_objects = [0] \<and> length (objects weather_objects) = 1
   \<and> objects (snd (search_relevant_conversations_refs ''clima'' None weather_objects)) ! 0
       = weather_a
   \<and> history_file (snd (search_relevant_conversations_refs ''clima'' None weather_objects))
       = Content [weather_a, weather_b]"
proof -
  have h: "\<forall>r\<in>set (window_refs weather_objects). r < length (objects weather_objects)"
    by (simp add: weather_objects_def)
  from search_relevant_conversations_frame [OF h, of "''clima''" None]
  show ?thesis by (simp add: weather_objects_def)
qed

section \<open>The short-term window\<close>

lemma window_save_to_long_term [simp]:
  "short_term_memory (save_to_long_term i st) = short_term_memory st"
  by (cases "memory_file st") (simp_all add: save_to_long_term_def)

lemma window_save_summaries [simp]:
  "short_term_memory (save_summaries ss st) = short_term_memory st"
  by (cases "summary_file st") (simp_all add: save_summaries_def)

lemma window_create_conversation_summary [simp]:
  "short_term_memory (create_conversation_summary h st) = short_term_memory st"
  by (simp add: create_conversation_summary_def Let_def split: sum.splits)

lemma window_check_and_summarize [simp]:
  "short_term_memory (check_and_summarize st) = short_term_memory st"
  by (cases "memory_file st") (simp_all add: check_and_summarize_def)

lemma window_add_interaction:
  "short_term_memory (add_interaction now u a m st) =
     (if length (short_term_memory st @ [new_interaction now u a m]) > SHORT_TERM_MEMORY_LIMIT
      then tl (short_term_memory st @ [new_interaction now u a m])
      else short_term_memory st @ [new_interaction now u a m])"
  by (simp add: add_interaction_def Let_def)

lemma window_add_interaction_drop:
  assumes "length (short_term_memory st) \<le> SHORT_TERM_MEMORY_LIMIT"
  shows "short_term_memory (add_interaction now u a m st) =
     drop (Suc (length (short_term_memory st)) - SHORT_TERM_MEMORY_LIMIT)
       (short_term_memory st @ [new_interaction now u a m])"
proof (cases "length (short_term_memory st) = SHORT_TERM_MEMORY_LIMIT")
  case True
  then have one: "Suc (length (short_term_memory st)) - SHORT_TERM_MEMORY_LIMIT = Suc 0" by simp
  have "drop (Suc 0) (short_term_memory st @ [new_interaction now u a m])
      = tl (short_term_memory st @ [new_interaction now u a m])"
    by (simp only: drop_Suc drop_0)
  then show ?thesis unfolding one window_add_interaction using True by simp
next
  case False
  with assms have "Suc (length (short_term_memory st)) - SHORT_TERM_MEMORY_LIMIT = 0" by simp
  then show ?thesis using False assms by (simp add: window_add_interaction)
qed

lemma drop_append_le: "n \<le> length xs \<Longrightarrow> drop n xs @ ys = drop n (xs @ ys)"
  by simp

lemma window_add_interactions:
  "length (short_term_memory st) \<le> SHORT_TERM_MEMORY_LIMIT \<Longrightarrow>
   short_term_memory (add_interactions calls st) =
     drop (length (short_term_memory st) + length calls - SHORT_TERM_MEMORY_LIMIT)
       (short_term_memory st @ map (\<lambda>(now, u, a, m). new_interaction now u a m) calls)"
proof (induction calls arbitrary: st)
  case Nil
  then show ?case by simp
next
  case (Cons c calls)
  obtain now u a m where c: "c = (now, u, a, m)" by (cases c)
  let ?L = "SHORT_TERM_MEMORY_LIMIT"
  let ?w = "short_term_memory st"
  let ?i = "new_interaction now u a m"
  let ?st' = "add_interaction now u a m st"
  let ?rest = "map (\<lambda>(now, u, a, m). new_interaction now u a m) calls"
  have w': "short_term_memory ?st' = drop (Suc (length ?w) - ?L) (?w @ [?i])"
    using Cons.prems by (rule window_add_interaction_drop)
  then have len: "length (short_term_memory ?st') = Suc (length ?w) - (Suc (length ?w) - ?L)"
    by simp
  then have le: "length (short_term_memory ?st') \<le> ?L" by simp
  have "short_term_memory (add_interactions (c # calls) st)
      = short_term_memory (add_interactions calls ?st')" by (simp add: c)
  also have "\<dots> = drop (length (short_term_memory ?st') + length calls - ?L)
       (short_term_memory ?st' @ ?rest)"
    using Cons.IH [OF le] .
  also have "\<dots> = drop (length (short_term_memory ?st') + length calls - ?L)
       (drop (Suc (length ?w) - ?L) ((?w @ [?i]) @ ?rest))"
    unfolding w' by (rule arg_cong [OF drop_append_le]) simp
  also have "\<dots> = drop (length (short_term_memory ?st') + length calls - ?L
        + (Suc (length ?w) - ?L)) ((?w @ [?i]) @ ?rest)"
    by (rule drop_drop)
  also have "length (short_term_memory ?st') + length calls - ?L + (Suc (length ?w) - ?L)
      = length ?w + length (c # calls) - ?L"
    unfolding len using Cons.prems by simp
  finally show ?case by (simp add: c)
qed

text \<open>
  C1. Starting from an empty window, after any sequence of \<open>add_interaction\<close> calls the
  window holds at most \<open>SHORT_TERM_MEMORY_LIMIT\<close> interactions: exactly the last
  \<open>min(limit, n)\<close> of the \<open>n\<close> interactions added, in the order they were added. Every
  initial part of a sequence of calls is such a sequence, so this holds after each call.
\<close>

theorem short_term_window_bounded:
  assumes "short_term_memory st = []"
  shows "length (short_term_memory (add_interactions calls st)) \<le> SHORT_TERM_MEMORY_LIMIT
     \<and> length (short_term_memory (add_interactions calls st))
         = min SHORT_TERM_MEMORY_LIMIT (length calls)
     \<and> short_term_memory (add_interactions calls st)
         = drop (length calls - min SHORT_TERM_MEMORY_LIMIT (length calls))
             (map (\<lambda>(now, u, a, m). new_interaction now u a m) calls)"
proof -
  have le: "length (short_term_memory st) \<le> SHORT_TERM_MEMORY_LIMIT"
    using assms by simp
  have w: "short_term_memory (add_interactions calls st)
      = drop (length calls - SHORT_TERM_MEMORY_LIMIT)
          (map (\<lambda>(now, u, a, m). new_interaction now u a m) calls)"
    using window_add_interactions [OF le, of calls] assms by simp
  have d: "length calls - min SHORT_TERM_MEMORY_LIMIT (length calls)
      = length calls - SHORT_TERM_MEMORY_LIMIT"
    by simp
  show ?thesis unfolding d w by auto
qed

theorem short_term_window_bounded_witness:
  "short_term_memory
     \<lparr>short_term_memory = [], conversation_summaries = [],
      memory_file = Missing, summary_file = Missing\<rparr> = []
   \<and> length (short_term_memory
        (add_interactions (map (\<lambda>n. (str_nat n, ''hola'', ''buenas'', None)) [1..<13])
           \<lparr>short_term_memory = [], conversation_summaries = [],
            memory_file = Missing, summary_file = Missing\<rparr>)) = 10"
proof -
  have len: "length (map (\<lambda>n. (str_nat n, ''hola'', ''buenas'', None :: (string \<times> string) list option))
                    [1..<13]) = 12"
    by simp
  have h: "short_term_memory
     \<lparr>short_term_memory = [], conversation_summaries = [],
      memory_file = Missing, summary_file = Missing\<rparr> = []"
    by simp
  from short_term_window_bounded
         [OF h, of "map (\<lambda>n. (str_nat n, ''hola'', ''buenas'', None)) [1..<13]"]
  have "length (short_term_memory
        (add_interactions (map (\<lambda>n. (str_nat n, ''hola'', ''buenas'', None)) [1..<13])
           \<lparr>short_term_memory = [], conversation_summaries = [],
            memory_file = Missing, summary_file = Missing\<rparr>))
      = min SHORT_TERM_MEMORY_LIMIT 12"
    unfolding len by blast
  then show ?thesis by (simp add: SHORT_TERM_MEMORY_LIMIT_def)
qed

section \<open>Context composition\<close>

lemma include_recent_eq:
  "include_recent mx xs (msgs, srcs, cur) =
     (concat (map (\<lambda>i. unit_messages (RecentUnit i)) (recent_units mx cur xs)) @ msgs,
      map (\<lambda>i. unit_source (RecentUnit i)) (recent_units mx cur xs) @ srcs,
      cur + sum_list (map get_tokens (recent_units mx cur xs)))"
proof (induction xs arbitrary: msgs srcs cur)
  case Nil
  then show ?case by simp
next
  case (Cons i rest)
  show ?case
  proof (cases "cur + get_tokens i > mx")
    case True
    then show ?thesis by simp
  next
    case False
    then show ?thesis by (simp add: Cons.IH insert0_def Let_def)
  qed
qed

lemma recent_units_bound:
  "cur \<le> mx \<Longrightarrow> cur + sum_list (map get_tokens (recent_units mx cur xs)) \<le> mx"
proof (induction xs arbitrary: cur)
  case Nil
  then show ?case by simp
next
  case (Cons i rest)
  show ?case
  proof (cases "cur + get_tokens i > mx")
    case True
    then show ?thesis using Cons.prems by simp
  next
    case False
    then have "cur + get_tokens i \<le> mx" by simp
    from Cons.IH [OF this] False show ?thesis by (simp add: add.assoc)
  qed
qed

lemma include_relevant_eq:
  "include_relevant mx w convs (msgs, srcs, cur) =
     (msgs @ concat (map (\<lambda>c. unit_messages (RelevantUnit c)) (relevant_units mx w cur convs)),
      srcs @ map (\<lambda>c. unit_source (RelevantUnit c)) (relevant_units mx w cur convs),
      cur + sum_list (map get_tokens (relevant_units mx w cur convs)))"
proof (induction convs arbitrary: msgs srcs cur)
  case Nil
  then show ?case by simp
next
  case (Cons c rest)
  have dup: "(\<exists>d\<in>set w. timestamp d = timestamp c) = (timestamp c \<in> timestamp ` set w)"
    unfolding image_iff by (rule bex_cong [OF refl]) (rule eq_commute)
  show ?case
  proof (cases "timestamp c \<notin> timestamp ` set w \<and> cur + get_tokens c \<le> mx")
    case True
    then show ?thesis by (simp add: Cons.IH dup Let_def)
  next
    case False
    then show ?thesis by (auto simp: Cons.IH dup Let_def)
  qed
qed

lemma relevant_units_bound:
  "cur \<le> mx \<Longrightarrow> cur + sum_list (map get_tokens (relevant_units mx w cur convs)) \<le> mx"
proof (induction convs arbitrary: cur)
  case Nil
  then show ?case by simp
next
  case (Cons c rest)
  show ?case
  proof (cases "timestamp c \<notin> timestamp ` set w \<and> cur + get_tokens c \<le> mx")
    case True
    then have "cur + get_tokens c \<le> mx" by simp
    from Cons.IH [OF this] True show ?thesis by (simp add: add.assoc)
  next
    case False
    with Cons.IH [OF Cons.prems] show ?thesis by auto
  qed
qed


lemma context_decomposition:
  "get_intelligent_context st msg mt =
     (concat (map unit_messages (context_units st msg mt)),
      map unit_source (context_units st msg mt))"
  by (simp add: get_intelligent_context_def context_units_def include_recent_eq
      include_relevant_eq Let_def insert0_def comp_def)

lemma estimate_tokens_prefix:
  "estimate_tokens (summary_prefix @ s) \<le> estimate_tokens s + 10"
  by (simp add: estimate_tokens_def summary_prefix_def)

text \<open>
  What the three checks of the code give: the costs add up to at most the budget when
  no summary is included, and to at most 10 tokens more when one is, since the summary
  is checked without the prefix of its message.
\<close>

lemma context_units_cost:
  assumes "0 \<le> (case mt of None \<Rightarrow> MAX_CONTEXT_TOKENS | Some m \<Rightarrow> m)"
  shows "sum_list (map unit_cost (context_units st msg mt))
           \<le> (case mt of None \<Rightarrow> MAX_CONTEXT_TOKENS | Some m \<Rightarrow> m)
              + (if Summary \<in> set (snd (get_intelligent_context st msg mt)) then 10 else 0)"
proof -
  define b where "b = (case mt of None \<Rightarrow> MAX_CONTEXT_TOKENS | Some m \<Rightarrow> m)"
  define recent where "recent = recent_units b 0 (rev (short_term_memory st))"
  define spent where "spent = sum_list (map get_tokens recent)"
  define relevant where "relevant =
      (if b - spent > 200
       then relevant_units b (short_term_memory st) spent
              (search_relevant_conversations (memory_file st) msg (Some 3))
       else [])"
  define total where "total = spent + sum_list (map get_tokens relevant)"
  define s where "s = get_relevant_summaries st msg"
  define included where "included \<longleftrightarrow>
      conversation_summaries st \<noteq> [] \<and> b - spent > 100 \<and> s \<noteq> []
        \<and> total + estimate_tokens s \<le> b"
  have b: "0 \<le> b" using assms by (simp add: b_def)
  have spent: "spent \<le> b"
    using recent_units_bound [OF b, of "rev (short_term_memory st)"]
    by (simp add: spent_def recent_def)
  have total: "total \<le> b"
  proof (cases "b - spent > 200")
    case True
    then show ?thesis
      using relevant_units_bound [OF spent, of "short_term_memory st"
          "search_relevant_conversations (memory_file st) msg (Some 3)"]
      by (simp add: total_def relevant_def)
  next
    case False
    then show ?thesis using spent by (simp add: total_def relevant_def)
  qed
  have units: "context_units st msg mt
      = (if included then [SummaryUnit s] else [])
        @ map RecentUnit recent @ map RelevantUnit relevant"
    unfolding context_units_def Let_def included_def s_def total_def relevant_def spent_def
      recent_def b_def ..
  have tags: "(Summary \<in> set (snd (get_intelligent_context st msg mt))) = included"
    unfolding context_decomposition units by (cases included) (auto simp: comp_def)
  have costs: "sum_list (map unit_cost (map RecentUnit recent @ map RelevantUnit relevant))
      = total"
    by (simp add: total_def spent_def comp_def)
  show ?thesis
  proof (cases included)
    case True
    then have fits: "total + estimate_tokens s \<le> b" by (simp add: included_def)
    have "sum_list (map unit_cost (context_units st msg mt))
        = estimate_tokens (summary_prefix @ s) + total"
      unfolding units using True costs by simp
    also have "\<dots> \<le> b + 10"
      using estimate_tokens_prefix [of s] fits by linarith
    finally show ?thesis unfolding tags b_def [symmetric] using True by simp
  next
    case False
    have "sum_list (map unit_cost (context_units st msg mt)) = total"
      unfolding units using False costs by simp
    with total show ?thesis unfolding tags b_def [symmetric] using False by simp
  qed
qed

lemma unit_messages_nonempty: "unit_messages u \<noteq> []"
  by (cases u) simp_all

lemma concat_unit_messages_empty: "(concat (map unit_messages us) = []) = (us = [])"
  by (cases us) (simp_all add: unit_messages_nonempty)

text \<open>
  C2. The claim bounds the estimated cost of what is returned by the budget. The summary
  is checked as \<open>current_tokens + _estimate_tokens(summary_text) <= max_tokens\<close>, and
  the message that is returned holds the text after a prefix of 38 characters. With no
  conversation, a stored summary of 400 characters and a budget of 101, the check is
  \<open>0 + 100 <= 101\<close> and the returned message has 438 characters: 109 tokens.
\<close>

theorem summary_prefix_over_budget:
  "get_intelligent_context long_summary_state ''clima'' (Some 101)
     = ([\<lparr>role = ''system'', content = summary_prefix @ replicate 400 CHR ''x''\<rparr>], [Summary])
   \<and> map unit_cost (context_units long_summary_state ''clima'' (Some 101)) = [109]
   \<and> estimate_tokens (replicate 400 CHR ''x'') = 100
   \<and> estimate_tokens (summary_prefix @ replicate 400 CHR ''x'') = 109"
proof -
  have "get_intelligent_context long_summary_state ''clima'' (Some 101)
     = ([\<lparr>role = ''system'', content = summary_prefix @ replicate 400 CHR ''x''\<rparr>], [Summary])"
    by code_simp
  moreover have "map unit_cost (context_units long_summary_state ''clima'' (Some 101)) = [109]"
    by code_simp
  moreover have "estimate_tokens (replicate 400 CHR ''x'') = 100"
    by (simp add: estimate_tokens_def)
  moreover have "estimate_tokens (summary_prefix @ replicate 400 CHR ''x'') = 109"
    by (simp add: estimate_tokens_def summary_prefix_def)
  ultimately show ?thesis by (simp only: simp_thms)
qed

text \<open>
  C3. The claim puts each recent interaction's user message before its assistant
  response. The code inserts the user message at index 0 and then the assistant response
  at index 0, so the response comes first; the relevant conversations are appended user
  message first. With \<open>weather_a\<close> in the window and \<open>weather_b\<close> found by the search:
\<close>

theorem recent_messages_assistant_first:
  "fst (get_intelligent_context weather_state ''clima'' None)
     = [\<lparr>role = ''assistant'', content = ''soleado''\<rparr>,
        \<lparr>role = ''user'', content = ''clima''\<rparr>,
        \<lparr>role = ''user'', content = ''clima clima''\<rparr>,
        \<lparr>role = ''assistant'', content = ''lluvia''\<rparr>]"
  by code_simp

text \<open>
  C7, as stated: a budget of 0 gives an empty message list whatever the window holds. An
  interaction of fewer than four characters costs 0 tokens and fits a budget of 0.
\<close>

theorem zero_budget_counterexample:
  "fst (get_intelligent_context
          \<lparr>short_term_memory = [new_interaction ''2024-01-02T10:00:00'' ''hi'' ''a'' None],
           conversation_summaries = [],
           memory_file = Content [new_interaction ''2024-01-02T10:00:00'' ''hi'' ''a'' None],
           summary_file = Missing\<rparr>
          ''hola'' (Some 0)) \<noteq> []"
  by code_simp

text \<open>
  C7, amended. With a budget of 0 the message list is empty exactly when the window is
  empty or its newest interaction has a strictly positive token cost.
\<close>

theorem zero_budget_context:
  "(fst (get_intelligent_context st msg (Some 0)) = [])
     = (case rev (short_term_memory st) of [] \<Rightarrow> True | i # older \<Rightarrow> 0 < get_tokens i)"
proof (cases "rev (short_term_memory st)")
  case Nil
  then have "context_units st msg (Some 0) = []"
    by (simp add: context_units_def)
  then show ?thesis using Nil by (simp add: context_decomposition)
next
  case (Cons i older)
  show ?thesis
  proof (cases "0 < get_tokens i")
    case True
    then have "context_units st msg (Some 0) = []"
      using Cons by (simp add: context_units_def)
    then show ?thesis using Cons True by (simp add: context_decomposition)
  next
    case False
    then have "recent_units 0 0 (rev (short_term_memory st)) \<noteq> []"
      using Cons by simp
    then have "context_units st msg (Some 0) \<noteq> []"
      by (simp add: context_units_def Let_def)
    then show ?thesis using Cons False
      by (simp add: context_decomposition concat_unit_messages_empty del: concat_eq_Nil_conv)
  qed
qed

theorem zero_budget_context_witness:
  "0 < get_tokens weather_a
   \<and> fst (get_intelligent_context weather_state ''clima'' (Some 0)) = []"
proof -
  have h: "0 < get_tokens weather_a"
    by (simp add: weather_a_def new_interaction_def get_tokens_def estimate_tokens_def)
  from zero_budget_context [of weather_state "''clima''"] h
  show ?thesis by (simp add: weather_state_def)
qed

section \<open>Summarization\<close>




lemmas date_defs = fromisoformat_def parse_isoformat_date_def parse_isoformat_time_def
  hh_mm_ss_def fraction_def utc_offset_def field_def expect_def digit_def is_leap_def
  days_in_month_def days_before_year_def days_before_month_def ymd2ord_def

lemma isoweek1monday_2024: "isoweek1monday 2024 = 738886"
  by (simp add: isoweek1monday_def date_defs Let_def)

lemma isoweek1monday_2025: "isoweek1monday 2025 = 739250"
  by (simp add: isoweek1monday_def date_defs Let_def)

lemma isocalendar_jan: "isocalendar \<lparr>year = 2024, month = 1, day = 2\<rparr> = (2024, 1, 2)"
  by (simp add: isocalendar_def isoweek1monday_2024 isoweek1monday_2025 ymd2ord_def
      days_before_year_def days_before_month_def is_leap_def)

lemma isocalendar_dec: "isocalendar \<lparr>year = 2024, month = 12, day = 30\<rparr> = (2025, 1, 1)"
  by (simp add: isocalendar_def isoweek1monday_2024 isoweek1monday_2025 ymd2ord_def
      days_before_year_def days_before_month_def is_leap_def)

lemma week_key_jan: "week_key \<lparr>year = 2024, month = 1, day = 2\<rparr> = ''2024-W1''"
  unfolding week_key_def isocalendar_jan by simp

lemma week_key_dec: "week_key \<lparr>year = 2024, month = 12, day = 30\<rparr> = ''2024-W1''"
  unfolding week_key_def isocalendar_dec by simp

lemma year_end_dates:
  "map (\<lambda>c. fromisoformat (timestamp c)) year_end_candidates
     = replicate 5 (Some \<lparr>year = 2024, month = 1, day = 2\<rparr>)
       @ replicate 5 (Some \<lparr>year = 2024, month = 12, day = 30\<rparr>)"
  by code_simp

lemma group_weeks_one_key:
  "map (\<lambda>c. map_option week_key (fromisoformat (timestamp c))) convs
     = replicate (length convs) (Some k) \<Longrightarrow>
   group_weeks convs [(k, acc)] = [(k, acc @ convs)]"
proof (induction convs arbitrary: acc)
  case Nil
  then show ?case by simp
next
  case (Cons c convs)
  from Cons.prems obtain d where d: "fromisoformat (timestamp c) = Some d" "week_key d = k"
    by auto
  from Cons.prems have rest: "map (\<lambda>c. map_option week_key (fromisoformat (timestamp c))) convs
     = replicate (length convs) (Some k)" by simp
  show ?case using d Cons.IH [OF rest, of "acc @ [c]"] by simp
qed

lemma group_weeks_one_key_start:
  assumes "map (\<lambda>c. map_option week_key (fromisoformat (timestamp c))) convs
     = replicate (length convs) (Some k)" "convs \<noteq> []"
  shows "group_weeks convs [] = [(k, convs)]"
proof -
  from assms(2) obtain c rest where cr: "convs = c # rest" by (cases convs) auto
  from assms(1) obtain d where d: "fromisoformat (timestamp c) = Some d" "week_key d = k"
    unfolding cr by auto
  from assms(1) have rest: "map (\<lambda>c. map_option week_key (fromisoformat (timestamp c))) rest
     = replicate (length rest) (Some k)" unfolding cr by simp
  show ?thesis unfolding cr using d group_weeks_one_key [OF rest, of "[c]"] by simp
qed

lemma year_end_keys:
  "map (\<lambda>c. map_option week_key (fromisoformat (timestamp c))) year_end_candidates
     = replicate (length year_end_candidates) (Some ''2024-W1'')"
proof -
  have len: "length year_end_candidates = 5 + 5" by (simp add: year_end_candidates_def)
  have "map (\<lambda>c. map_option week_key (fromisoformat (timestamp c))) year_end_candidates
      = map (map_option week_key) (map (\<lambda>c. fromisoformat (timestamp c)) year_end_candidates)"
    by simp
  also have "\<dots> = replicate 5 (Some ''2024-W1'') @ replicate 5 (Some ''2024-W1'')"
    unfolding year_end_dates
    by (simp only: map_append map_replicate option.map week_key_jan week_key_dec)
  finally show ?thesis unfolding len replicate_add .
qed

lemma group_weeks_year_end:
  "group_weeks year_end_candidates [] = [(''2024-W1'', year_end_candidates)]"
  by (rule group_weeks_one_key_start [OF year_end_keys]) (simp add: year_end_candidates_def)

lemma create_weekly_summary_fields:
  "convs \<noteq> [] \<Longrightarrow>
   \<exists>s. create_weekly_summary week convs = Inr s \<and> period s = week
       \<and> conversation_count s = length convs
       \<and> date_range s = (timestamp (hd convs), timestamp (last convs))"
  by (simp add: create_weekly_summary_def Let_def)



text \<open>
  C6. The claim groups by ISO calendar week. The key of a bucket is the calendar year of
  the date with the ISO week number, so two ISO weeks of one calendar year that have the
  same number share a bucket: of the ten candidates \<open>year_end_candidates\<close>, five are in
  ISO week 1 of 2024 and five in ISO week 1 of 2025, and the code makes one summary of
  ten conversations from 2 January to 30 December, where the claim has two of five.
\<close>

theorem year_end_weeks_merged:
  "map (\<lambda>c. map_option (\<lambda>d. (fst (isocalendar d), fst (snd (isocalendar d))))
              (fromisoformat (timestamp c))) year_end_candidates
     = replicate 5 (Some (2024, 1)) @ replicate 5 (Some (2025, 1))
   \<and> map (\<lambda>s. (period s, conversation_count s, date_range s))
        (case group_conversations_by_time year_end_candidates of
           Inr summaries \<Rightarrow> summaries | Inl e \<Rightarrow> [])
     = [(''2024-W1'', 10, (''2024-01-02T09:00:00'', ''2024-12-30T09:04:00''))]"
proof -
  have "map (\<lambda>c. map_option (\<lambda>d. (fst (isocalendar d), fst (snd (isocalendar d))))
              (fromisoformat (timestamp c))) year_end_candidates
     = map (map_option (\<lambda>d. (fst (isocalendar d), fst (snd (isocalendar d)))))
         (map (\<lambda>c. fromisoformat (timestamp c)) year_end_candidates)"
    by simp
  also have "\<dots> = replicate 5 (Some (2024, 1)) @ replicate 5 (Some (2025, 1))"
    unfolding year_end_dates
    by (simp only: map_append map_replicate option.map isocalendar_jan isocalendar_dec
        fst_conv snd_conv)
  finally have weeks: "map (\<lambda>c. map_option (\<lambda>d. (fst (isocalendar d), fst (snd (isocalendar d))))
              (fromisoformat (timestamp c))) year_end_candidates
     = replicate 5 (Some (2024, 1)) @ replicate 5 (Some (2025, 1))" .
  have ne: "year_end_candidates \<noteq> []" and len: "length year_end_candidates = 10"
    by (simp_all add: year_end_candidates_def)
  have ends: "timestamp (hd year_end_candidates) = ''2024-01-02T09:00:00''"
    "timestamp (last year_end_candidates) = ''2024-12-30T09:04:00''"
    by (simp_all add: year_end_candidates_def new_interaction_def)
  from create_weekly_summary_fields [OF ne, of "''2024-W1''"]
  obtain s where s: "create_weekly_summary ''2024-W1'' year_end_candidates = Inr s"
    "period s = ''2024-W1''" "conversation_count s = 10"
    "date_range s = (''2024-01-02T09:00:00'', ''2024-12-30T09:04:00'')"
    unfolding len ends by blast
  have "group_conversations_by_time year_end_candidates = Inr [s]"
    unfolding group_conversations_by_time_def Let_def group_weeks_year_end
    using s(1) len by simp
  with s weeks show ?thesis by simp
qed

end
